theory Spec2Isabelle
  imports Main "HOL-Library.Word"
begin

unbundle bit_operations_syntax

section \<open>Flags\<close>

text \<open>
  \<^verbatim>\<open>type Flags uint8\<close>: an unsigned 8-bit mask. The three named bits are
  \<^verbatim>\<open>1 << iota\<close> for iota = 0, 1, 2.
\<close>

type_synonym Flags = "8 word"

definition FlagUnknown :: Flags where
  "FlagUnknown = push_bit 0 1"

definition FlagRetryable :: Flags where
  "FlagRetryable = push_bit 1 1"

definition FlagTimeout :: Flags where
  "FlagTimeout = push_bit 2 1"

text \<open>\<^verbatim>\<open>f &^ bits\<close>\<close>

definition Clear :: "Flags \<Rightarrow> Flags \<Rightarrow> Flags" where
  "Clear f bits = f AND NOT bits"

text \<open>\<^verbatim>\<open>f&bits != 0\<close>\<close>

definition Has :: "Flags \<Rightarrow> Flags \<Rightarrow> bool" where
  "Has f bits = (f AND bits \<noteq> 0)"

text \<open>\<^verbatim>\<open>f | bits\<close>\<close>

definition Set :: "Flags \<Rightarrow> Flags \<Rightarrow> Flags" where
  "Set f bits = f OR bits"

text \<open>\<^verbatim>\<open>f ^ bits\<close>\<close>

definition Toggle :: "Flags \<Rightarrow> Flags \<Rightarrow> Flags" where
  "Toggle f bits = f XOR bits"


section \<open>Extras\<close>

text \<open>
  \<^verbatim>\<open>time.Duration\<close> is an \<^verbatim>\<open>int64\<close>. A Go slice is \<^verbatim>\<open>nil\<close> or a
  sequence; \<^verbatim>\<open>reflect.DeepEqual\<close> tells a nil slice from an empty one, so
  \<open>Links\<close> and \<open>Tags\<close> are optional lists, \<open>None\<close> the nil slice.
\<close>

record Extras =
  Delay :: "64 word"
  Links :: "string list option"
  StackTrace :: string
  Tags :: "string list option"

definition Extras_zero :: Extras where
  "Extras_zero = \<lparr>Delay = 0, Links = None, StackTrace = [], Tags = None\<rparr>"

section \<open>Error values\<close>

type_synonym Code = string
type_synonym Namespace = string

text \<open>
  \<^verbatim>\<open>type GroupFormatter func([]Error) string\<close>. A function value cannot be a field of
  the recursive type of errors, so a Group names its formatter: the package's
  \<^verbatim>\<open>GroupFormatterDefault\<close>, or the \<open>n\<close>-th formatter supplied by the caller,
  whose behaviour the rendering functions take as a parameter. A Group with the nil
  formatter, whose \<^verbatim>\<open>Error()\<close> panics, is not rendered here; no other method reads
  the field.
\<close>

datatype GroupFormatter = FormatterDefault | FormatterUser nat

text \<open>
  A Go \<^verbatim>\<open>error\<close> interface value that is not nil, by its dynamic type:
  \<^item> \<open>ECanonical c\<close>: a \<^verbatim>\<open>Canonical\<close> struct value;
  \<^item> \<open>EGroup g\<close>: a non-nil \<^verbatim>\<open>*Group\<close>, \<open>g\<close> the Group it points to, as
    it is when the value is read;
  \<^item> \<open>EChain e\<close>: a \<^verbatim>\<open>chain\<close>, the slice \<open>e\<close> of its members;
  \<^item> \<open>EForeign s w\<close>: an error of any other type (\<^verbatim>\<open>errors.New\<close>,
    \<^verbatim>\<open>fmt.Errorf\<close>), \<open>s\<close> the text its \<^verbatim>\<open>Error()\<close> returns and \<open>w\<close> what its
    \<^verbatim>\<open>Unwrap()\<close> returns (\<open>None\<close> when it has no such method or returns nil).
  The nil interface value is \<open>None\<close> of \<open>error option\<close>; a nil pointer stored in
  an interface, which is not the nil interface, is outside the model. The interface
  \<^verbatim>\<open>Error\<close> is implemented in this package by \<^verbatim>\<open>Canonical\<close> alone among these
  (\<^verbatim>\<open>*Group\<close> and \<^verbatim>\<open>chain\<close> lack \<^verbatim>\<open>Format\<close>, \<^verbatim>\<open>Copy\<close>, \<^verbatim>\<open>Equal\<close>, ...; a
  \<^verbatim>\<open>*Canonical\<close> has the methods too, but no function of the package returns one),
  so a non-nil \<^verbatim>\<open>Error\<close> is a \<open>Canonical\<close> and \<^verbatim>\<open>[]Error\<close> is a \<open>Canonical list\<close>.
  Values are finite trees: an error that reaches itself through pointers is outside
  the model.
\<close>

datatype error =
    ECanonical Canonical
  | EGroup Group
  | EChain "Canonical list"
  | EForeign string "error option"
and Canonical =
    Canonical (Code: Code) (Extras: Extras) (Flags: Flags) (Message: string)
      (Namespace: Namespace) (Wrapped: "error option")
and Group =
    Group (Errors: "Canonical list") (Formatter: GroupFormatter)

definition DefaultNamespace :: Namespace where
  "DefaultNamespace = ''go-stdlib/go-errors''"

definition ErrUnknown :: Canonical where
  "ErrUnknown =
     Canonical ''unknown'' Extras_zero FlagUnknown ''wrapped error is unknown''
       DefaultNamespace None"

text \<open>The zero value \<^verbatim>\<open>Canonical{}\<close>.\<close>

definition Canonical_zero :: Canonical where
  "Canonical_zero = Canonical [] Extras_zero 0 [] [] None"

section \<open>Unwrapping\<close>

text \<open>\<^verbatim>\<open>func (c Canonical) Unwrap() error\<close>\<close>

definition Canonical_Unwrap :: "Canonical \<Rightarrow> error option" where
  "Canonical_Unwrap c = Wrapped c"

text \<open>\<^verbatim>\<open>func (e chain) Unwrap() error\<close>; \<^verbatim>\<open>e[1:]\<close> is \<open>drop 1 e\<close>.\<close>

definition chain_Unwrap :: "Canonical list \<Rightarrow> error option" where
  "chain_Unwrap e = (if length e \<le> 1 then None else Some (EChain (drop 1 e)))"

text \<open>
  \<^verbatim>\<open>func (g *Group) Unwrap() error\<close>; the receiver may be the nil pointer, \<open>None\<close>.
  The chain is built over a copy of the slice; in a model of values the copy is the
  list itself.
\<close>

definition Group_Unwrap :: "Group option \<Rightarrow> error option" where
  "Group_Unwrap g =
     (case g of
        None \<Rightarrow> None
      | Some g' \<Rightarrow>
          if length (Errors g') = 0 then None
          else if length (Errors g') = 1 then Some (ECanonical (Errors g' ! 0))
          else Some (EChain (Errors g')))"

text \<open>The call \<^verbatim>\<open>x.Unwrap()\<close> on an error, dispatched on its dynamic type.\<close>

fun Unwrap :: "error \<Rightarrow> error option" where
  "Unwrap (ECanonical c) = Canonical_Unwrap c"
| "Unwrap (EGroup g) = Group_Unwrap (Some g)"
| "Unwrap (EChain e) = chain_Unwrap e"
| "Unwrap (EForeign s w) = w"

lemma size_nth_less: "i < length xs \<Longrightarrow> size (xs ! i) < size_list size xs"
proof (induction xs arbitrary: i)
  case Nil
  then show ?case by simp
next
  case (Cons x xs)
  show ?case
  proof (cases i)
    case 0
    then show ?thesis by simp
  next
    case (Suc j)
    with Cons.prems have "j < length xs" by simp
    from Cons.IH [OF this] Suc show ?thesis by simp
  qed
qed

lemma Unwrap_size: "Unwrap err = Some err' \<Longrightarrow> size err' < size err"
proof (cases err)
  case (ECanonical c)
  assume "Unwrap err = Some err'"
  with ECanonical show ?thesis
    by (cases c) (simp add: Canonical_Unwrap_def)
next
  case (EGroup g)
  assume u: "Unwrap err = Some err'"
  obtain ms f where g: "g = Group ms f" by (cases g)
  show ?thesis
  proof (cases "length ms = 1")
    case True
    then have "size (ms ! 0) < size_list size ms"
      by (intro size_nth_less) simp
    moreover from True u EGroup g have "err' = ECanonical (ms ! 0)"
      by (simp add: Group_Unwrap_def)
    ultimately show ?thesis using EGroup g by simp
  next
    case False
    with u EGroup g have "err' = EChain ms"
      by (simp add: Group_Unwrap_def split: if_splits)
    then show ?thesis using EGroup g by simp
  qed
next
  case (EChain e)
  assume u: "Unwrap err = Some err'"
  with EChain have "err' = EChain (drop 1 e)" and "1 < length e"
    by (simp_all add: chain_Unwrap_def split: if_splits)
  then show ?thesis using EChain by (cases e) simp_all
next
  case (EForeign s w)
  assume "Unwrap err = Some err'"
  with EForeign show ?thesis by simp
qed

section \<open>The downcast \<^verbatim>\<open>errors.As\<close>\<close>

text \<open>
  \<^verbatim>\<open>errors.As(err, target)\<close> of the Go standard library looks for the first error
  in the tree of \<open>err\<close> that can be assigned to the variable \<open>target\<close> points to,
  stores it there and returns true. The target is modelled by the test of
  assignability, which returns the value stored: \<open>Some v\<close> is "true, with \<open>v\<close>
  stored", \<open>None\<close> is false. The three targets of this package:
  \<^item> \<^verbatim>\<open>var ce Canonical\<close>: the dynamic type is \<^verbatim>\<open>Canonical\<close>;
  \<^item> \<^verbatim>\<open>var eg *Group\<close>: the dynamic type is \<^verbatim>\<open>*Group\<close>;
  \<^item> \<^verbatim>\<open>var e Error\<close>: the dynamic type implements the interface \<^verbatim>\<open>Error\<close>.
\<close>

fun to_Canonical :: "error \<Rightarrow> Canonical option" where
  "to_Canonical (ECanonical c) = Some c"
| "to_Canonical (EGroup g) = None"
| "to_Canonical (EChain e) = None"
| "to_Canonical (EForeign s w) = None"

fun to_Group :: "error \<Rightarrow> Group option" where
  "to_Group (EGroup g) = Some g"
| "to_Group (ECanonical c) = None"
| "to_Group (EChain e) = None"
| "to_Group (EForeign s w) = None"

fun to_Error :: "error \<Rightarrow> Canonical option" where
  "to_Error (ECanonical c) = Some c"
| "to_Error (EGroup g) = None"
| "to_Error (EChain e) = None"
| "to_Error (EForeign s w) = None"

text \<open>
  The loop of the library, on an error that is not nil:
  \<^verbatim>\<open>
  for {
      if reflectlite.TypeOf(err).AssignableTo(targetType) { ...Set...; return true }
      if x, ok := err.(interface{ As(any) bool }); ok && x.As(target) { return true }
      switch x := err.(type) {
      case interface{ Unwrap() error }:
          err = x.Unwrap()
          if err == nil { return false }
      ...
      default: return false
      }
  }
  \<close>
  Of the modelled types only \<^verbatim>\<open>chain\<close> has an \<^verbatim>\<open>As\<close> method:
  \<^verbatim>\<open>
  func (e chain) As(target any) bool {
      if len(e) == 0 { return false }
      return errors.As(e[0], target)
  }
  \<close>
\<close>

function errors_as :: "(error \<Rightarrow> 'a option) \<Rightarrow> error \<Rightarrow> 'a option"
  and chain_As :: "Canonical list \<Rightarrow> (error \<Rightarrow> 'a option) \<Rightarrow> 'a option"
where
  "errors_as target err =
     (case target err of
        Some v \<Rightarrow> Some v
      | None \<Rightarrow>
          (case (case err of EChain x \<Rightarrow> chain_As x target | _ \<Rightarrow> None) of
             Some v \<Rightarrow> Some v
           | None \<Rightarrow>
               (case Unwrap err of
                  None \<Rightarrow> None
                | Some err' \<Rightarrow> errors_as target err')))"
| "chain_As e target =
     (if length e = 0 then None else errors_as target (ECanonical (e ! 0)))"
  by pat_completeness auto
termination
proof (relation "measure (\<lambda>x. case x of Inl (t, err) \<Rightarrow> 2 * size err + 1
                                     | Inr (e, t) \<Rightarrow> 2 * size (EChain e))")
  show "wf (measure (\<lambda>x. case x of Inl (t, err) \<Rightarrow> 2 * size err + 1
                                 | Inr (e, t) \<Rightarrow> 2 * size (EChain e)))"
    by simp
next
  fix target :: "error \<Rightarrow> 'a option" and err x
  assume "err = EChain x"
  then show "(Inr (x, target), Inl (target, err))
      \<in> measure (\<lambda>x. case x of Inl (t, err) \<Rightarrow> 2 * size err + 1
                             | Inr (e, t) \<Rightarrow> 2 * size (EChain e))"
    by simp
next
  fix target :: "error \<Rightarrow> 'a option" and err err'
  assume "Unwrap err = Some err'"
  then show "(Inl (target, err'), Inl (target, err))
      \<in> measure (\<lambda>x. case x of Inl (t, err) \<Rightarrow> 2 * size err + 1
                             | Inr (e, t) \<Rightarrow> 2 * size (EChain e))"
    using Unwrap_size [of err err'] by simp
next
  fix e :: "Canonical list" and target :: "error \<Rightarrow> 'a option"
  assume "length e \<noteq> 0"
  then show "(Inl (target, ECanonical (e ! 0)), Inr (e, target))
      \<in> measure (\<lambda>x. case x of Inl (t, err) \<Rightarrow> 2 * size err + 1
                             | Inr (e, t) \<Rightarrow> 2 * size (EChain e))"
    using size_nth_less [of 0 e] by simp
qed

declare errors_as.simps [simp del]

text \<open>\<^verbatim>\<open>errors.As\<close> itself returns false on the nil error before it enters the loop.\<close>

definition errors_As :: "error option \<Rightarrow> (error \<Rightarrow> 'a option) \<Rightarrow> 'a option" where
  "errors_As err target = (case err of None \<Rightarrow> None | Some err' \<Rightarrow> errors_as target err')"

lemma errors_as_ECanonical:
  "errors_as target (ECanonical c) =
     (case target (ECanonical c) of Some v \<Rightarrow> Some v
      | None \<Rightarrow> (case Wrapped c of None \<Rightarrow> None | Some w \<Rightarrow> errors_as target w))"
  by (subst errors_as.simps) (simp add: Canonical_Unwrap_def split: option.splits)

lemma errors_as_EForeign:
  "errors_as target (EForeign s w) =
     (case target (EForeign s w) of Some v \<Rightarrow> Some v
      | None \<Rightarrow> (case w of None \<Rightarrow> None | Some w' \<Rightarrow> errors_as target w'))"
  by (subst errors_as.simps) (simp split: option.splits)

lemma errors_as_EGroup:
  "errors_as target (EGroup g) =
     (case target (EGroup g) of Some v \<Rightarrow> Some v
      | None \<Rightarrow> (case Group_Unwrap (Some g) of None \<Rightarrow> None | Some w \<Rightarrow> errors_as target w))"
  by (subst errors_as.simps) (simp split: option.splits)

lemma errors_as_EChain:
  "errors_as target (EChain e) =
     (case target (EChain e) of Some v \<Rightarrow> Some v
      | None \<Rightarrow> (case chain_As e target of Some v \<Rightarrow> Some v
         | None \<Rightarrow> (case chain_Unwrap e of None \<Rightarrow> None | Some w \<Rightarrow> errors_as target w)))"
  by (subst errors_as.simps) (simp split: option.splits)

text \<open>What errors.As finds is a sub-error of its argument.\<close>

lemma errors_as_size:
  "errors_as target err = Some v \<Longrightarrow> \<exists>err'. target err' = Some v \<and> size err' \<le> size err"
  and "chain_As e target = Some v \<Longrightarrow> \<exists>err'. target err' = Some v \<and> size err' < size (EChain e)"
proof (induction target err and e target rule: errors_as_chain_As.induct)
  case (1 target err)
  show ?case
  proof (cases "target err")
    case (Some u)
    with "1.prems" have "u = v" by (subst (asm) errors_as.simps) simp
    with Some show ?thesis by auto
  next
    case None
    note tn = None
    show ?thesis
    proof (cases "case err of EChain x \<Rightarrow> chain_As x target | _ \<Rightarrow> None")
      case (Some u)
      then obtain x where x: "err = EChain x" "chain_As x target = Some u"
        by (cases err) auto
      from "1.prems" tn Some have "u = v" by (subst (asm) errors_as.simps) simp
      with "1.IH"(1) [OF tn x(1)] x show ?thesis by (auto intro: less_imp_le)
    next
      case None
      with "1.prems" tn obtain w where w: "Unwrap err = Some w" "errors_as target w = Some v"
        by (subst (asm) errors_as.simps) (auto split: option.splits)
      from "1.IH"(2) [OF tn None w(1) w(2)] Unwrap_size [OF w(1)]
      show ?thesis by (meson less_imp_le order_trans)
    qed
  qed
next
  case (2 e target)
  then have ne: "length e \<noteq> 0" and f: "errors_as target (ECanonical (e ! 0)) = Some v"
    by (auto split: if_splits)
  from "2.IH" [OF ne f] obtain err' where "target err' = Some v" "size err' \<le> size (ECanonical (e ! 0))"
    by blast
  moreover from ne have "size (e ! 0) < size_list size e" by (intro size_nth_less) simp
  ultimately show ?case by (intro exI [of _ err']) simp
qed

lemma errors_as_to_Canonical_size:
  "errors_as to_Canonical err = Some c \<Longrightarrow> size c < size err"
proof -
  assume "errors_as to_Canonical err = Some c"
  from errors_as_size(1) [OF this] obtain err' where "to_Canonical err' = Some c" "size err' \<le> size err"
    by blast
  then show ?thesis by (cases err') auto
qed

lemma errors_as_to_Group_size:
  "errors_as to_Group err = Some g \<Longrightarrow> size g < size err"
proof -
  assume "errors_as to_Group err = Some g"
  from errors_as_size(1) [OF this] obtain err' where "to_Group err' = Some g" "size err' \<le> size err"
    by blast
  then show ?thesis by (cases err') auto
qed

section \<open>Canonical\<close>

text \<open>
  \<^verbatim>\<open>reflect.DeepEqual(x, y any)\<close> of the Go standard library, on the values this
  package passes to it. An \<^verbatim>\<open>any\<close> carries its dynamic type: a \<^verbatim>\<open>Canonical\<close>
  struct, a non-nil \<^verbatim>\<open>*Canonical\<close> (modelled by the struct it points to), or an
  \<^verbatim>\<open>Extras\<close> struct. "Values of distinct types are never deeply equal"; values
  of one type are compared field by field, slices by nil-ness, length and elements.
  The package calls it on two \<^verbatim>\<open>Extras\<close> (in \<^verbatim>\<open>Equal\<close>) and on a \<^verbatim>\<open>Canonical\<close> with
  a \<^verbatim>\<open>*Canonical\<close> (in \<^verbatim>\<open>IsZero\<close>); two values of the type \<^verbatim>\<open>Canonical\<close> are
  compared as the modelled values, without the identity of the pointers they wrap.
\<close>

datatype any = Any_Canonical Canonical | Any_PtrCanonical Canonical | Any_Extras Extras

fun reflect_DeepEqual :: "any \<Rightarrow> any \<Rightarrow> bool" where
  "reflect_DeepEqual (Any_Extras x) (Any_Extras y) =
     (Delay x = Delay y \<and> Links x = Links y \<and> StackTrace x = StackTrace y \<and> Tags x = Tags y)"
| "reflect_DeepEqual (Any_Canonical x) (Any_Canonical y) = (x = y)"
| "reflect_DeepEqual (Any_PtrCanonical x) (Any_PtrCanonical y) = (x = y)"
| "reflect_DeepEqual (Any_Canonical x) (Any_PtrCanonical y) = False"
| "reflect_DeepEqual (Any_Canonical x) (Any_Extras y) = False"
| "reflect_DeepEqual (Any_PtrCanonical x) (Any_Canonical y) = False"
| "reflect_DeepEqual (Any_PtrCanonical x) (Any_Extras y) = False"
| "reflect_DeepEqual (Any_Extras x) (Any_Canonical y) = False"
| "reflect_DeepEqual (Any_Extras x) (Any_PtrCanonical y) = False"

text \<open>
  \<^verbatim>\<open>func (c Canonical) IsZero() bool { return reflect.DeepEqual(c, new(Canonical)) }\<close>:
  the receiver is a struct value, \<^verbatim>\<open>new(Canonical)\<close> a pointer to a zero struct.
\<close>

definition IsZero :: "Canonical \<Rightarrow> bool" where
  "IsZero c = reflect_DeepEqual (Any_Canonical c) (Any_PtrCanonical Canonical_zero)"

text \<open>\<^verbatim>\<open>func (c Canonical) Copy() Error\<close>\<close>

function Copy :: "Canonical \<Rightarrow> Canonical" where
  "Copy c =
     (case (if Wrapped c \<noteq> None then errors_As (Wrapped c) to_Canonical else None) of
        Some wrapped \<Rightarrow>
          Canonical (Code c) (Extras c) (Flags c) (Message c) (Namespace c)
            (Some (ECanonical (Copy wrapped)))
      | None \<Rightarrow>
          Canonical (Code c) (Extras c) (Flags c) (Message c) (Namespace c) (Wrapped c))"
  by pat_completeness auto
termination
proof (relation "measure size")
  show "wf (measure (size :: Canonical \<Rightarrow> nat))" by simp
next
  fix c wrapped
  assume "(if Wrapped c \<noteq> None then errors_As (Wrapped c) to_Canonical else None) = Some wrapped"
  then obtain w where w: "Wrapped c = Some w" "errors_as to_Canonical w = Some wrapped"
    by (auto simp: errors_As_def split: if_splits option.splits)
  from errors_as_to_Canonical_size [OF w(2)] w(1) have "size wrapped < size c"
    by (cases c) simp
  then show "(wrapped, c) \<in> measure size" by simp
qed

declare Copy.simps [simp del]

text \<open>
  \<^verbatim>\<open>func (c Canonical) Equal(e Error) bool\<close>; the argument is an \<^verbatim>\<open>Error\<close>
  interface value, nil or a Canonical.
\<close>

definition Equal :: "Canonical \<Rightarrow> Canonical option \<Rightarrow> bool" where
  "Equal c e =
     (case errors_As (map_option ECanonical e) to_Canonical of
        None \<Rightarrow> False
      | Some ce \<Rightarrow>
          Code c = Code ce \<and> Message c = Message ce \<and> Namespace c = Namespace ce \<and>
          Flags c = Flags ce \<and>
          reflect_DeepEqual (Any_Extras (Extras c)) (Any_Extras (Extras ce)))"

text \<open>\<^verbatim>\<open>func (c Canonical) Is(target error) bool\<close>\<close>

definition Is :: "Canonical \<Rightarrow> error option \<Rightarrow> bool" where
  "Is c target =
     (case errors_As target to_Canonical of None \<Rightarrow> False | Some err \<Rightarrow> Equal c (Some err))"

text \<open>\<^verbatim>\<open>func (c Canonical) Wrap(err error) Error\<close>\<close>

definition Wrap :: "Canonical \<Rightarrow> error option \<Rightarrow> Canonical" where
  "Wrap c err =
     (if err = None then c
      else case (if IsZero c then errors_As err to_Canonical else None) of
             Some ce \<Rightarrow> Copy ce
           | None \<Rightarrow>
               Canonical (Code c) (Extras c) (Flags c) (Message c) (Namespace c) err)"

section \<open>Group\<close>

text \<open>\<^verbatim>\<open>func (g *Group) Slice() []error\<close>\<close>

definition Slice :: "Group \<Rightarrow> error option list" where
  "Slice g = map (\<lambda>e. Some (ECanonical e)) (Errors g)"

lemma Slice_weight:
  "sum_list (map (case_option 1 size) (Slice g)) < size g"
proof -
  have "sum_list (map (case_option 1 size) (map (\<lambda>e. Some (ECanonical e)) ms)) = size_list size ms" for ms :: "Canonical list"
    by (induction ms) simp_all
  then show ?thesis by (cases g) (simp add: Slice_def)
qed

text \<open>
  \<^verbatim>\<open>func (g *Group) Append(errs ...error)\<close>, on a receiver that is not nil. The
  method updates \<^verbatim>\<open>g.Errors\<close> in place; the model returns the Group after the call.
  The arguments are values: an argument that is the receiver itself is read as the
  receiver was when the call began.
\<close>

function Append :: "Group \<Rightarrow> error option list \<Rightarrow> Group" where
  "Append g [] = g"
| "Append g (err # errs) =
     (if err = None then Append g errs
      else case errors_As err to_Group of
             Some eg \<Rightarrow> Append (Append g (Slice eg)) errs
           | None \<Rightarrow>
               (let e = (case errors_As err to_Error of
                           Some e' \<Rightarrow> Some e'
                         | None \<Rightarrow> Some (Wrap ErrUnknown err))
                in case e of
                     None \<Rightarrow> Append g errs
                   | Some e' \<Rightarrow> Append (Group (Errors g @ [e']) (Formatter g)) errs))"
  by pat_completeness auto
termination
proof (relation "measure (\<lambda>(g, errs). sum_list (map (case_option 1 size) errs))")
  show "wf (measure (\<lambda>(g :: Group, errs). sum_list (map (case_option 1 size) errs)))"
    by simp
next
  fix g :: Group and err :: "error option" and errs
  assume "err = None"
  then show "((g, errs), g, err # errs) \<in> measure (\<lambda>(g, errs). sum_list (map (case_option 1 size) errs))"
    by simp
next
  fix g :: Group and err :: "error option" and errs eg
  assume "err \<noteq> None" "errors_As err to_Group = Some eg"
  then obtain e where e: "err = Some e" "errors_as to_Group e = Some eg"
    by (auto simp: errors_As_def)
  from errors_as_to_Group_size [OF e(2)] Slice_weight [of eg] e(1)
  show "((g, Slice eg), g, err # errs) \<in> measure (\<lambda>(g, errs). sum_list (map (case_option 1 size) errs))"
    by simp
next
  fix g g' :: Group and err :: "error option" and errs
  assume "err \<noteq> None"
  then obtain e where "err = Some e" by auto
  moreover have "0 < size e" by (cases e) simp_all
  ultimately show "((g', errs), g, err # errs) \<in> measure (\<lambda>(g, errs). sum_list (map (case_option 1 size) errs))"
    by simp
next
  fix g g' :: Group and err :: "error option" and errs
  assume "err \<noteq> None"
  then obtain e where "err = Some e" by auto
  moreover have "0 < size e" by (cases e) simp_all
  ultimately show "((g', errs), g, err # errs) \<in> measure (\<lambda>(g, errs). sum_list (map (case_option 1 size) errs))"
    by simp
next
  fix g g' :: Group and err :: "error option" and errs
  assume "err \<noteq> None"
  then obtain e where "err = Some e" by auto
  moreover have "0 < size e" by (cases e) simp_all
  ultimately show "((g', errs), g, err # errs) \<in> measure (\<lambda>(g, errs). sum_list (map (case_option 1 size) errs))"
    by simp
qed

declare Append.simps(2) [simp del]

text \<open>\<^verbatim>\<open>func NewGroup(errs ...error) *Group\<close>\<close>

definition NewGroup :: "error option list \<Rightarrow> Group" where
  "NewGroup errs = Append (Group [] FormatterDefault) errs"

text \<open>\<^verbatim>\<open>func (g *Group) Empty() bool\<close>; the receiver may be nil.\<close>

definition Empty :: "Group option \<Rightarrow> bool" where
  "Empty g = (case g of None \<Rightarrow> True | Some g' \<Rightarrow> length (Errors g') = 0)"

text \<open>
  \<^verbatim>\<open>func (g *Group) ErrorOrNil() error\<close>; the receiver may be nil. A nil slice has
  length 0, so the test \<^verbatim>\<open>g.Errors == nil || len(g.Errors) == 0\<close> is the test of the
  length.
\<close>

definition ErrorOrNil :: "Group option \<Rightarrow> error option" where
  "ErrorOrNil g =
     (case g of
        None \<Rightarrow> None
      | Some g' \<Rightarrow> if length (Errors g') = 0 then None else Some (EGroup g'))"

lemma size_Errors: "size_list size (Errors g) < size g"
  by (cases g) simp

lemma size_Wrapped: "Wrapped c = Some w \<Longrightarrow> size w < size c"
  by (cases c) simp

lemma size_member: "x \<in> set xs \<Longrightarrow> size x < size_list size xs"
  by (induction xs) auto

section \<open>Rendering\<close>

text \<open>\<^verbatim>\<open>strings.Join(elems, sep)\<close>\<close>

fun Join :: "string list \<Rightarrow> string \<Rightarrow> string" where
  "Join [] sep = []"
| "Join [x] sep = x"
| "Join (x # y # ys) sep = x @ sep @ Join (y # ys) sep"

text \<open>
  The \<^verbatim>\<open>Error()\<close> methods. \<open>uf n\<close> is the \<open>n\<close>-th formatter supplied by the
  caller. \<^verbatim>\<open>fmt.Sprintf("* %s", err)\<close> on an \<^verbatim>\<open>Error\<close> calls its \<^verbatim>\<open>Format\<close>
  method with the verb \<^verbatim>\<open>s\<close>, which writes \<^verbatim>\<open>c.Error()\<close>.
\<close>

function Error :: "(nat \<Rightarrow> Canonical list \<Rightarrow> string) \<Rightarrow> error \<Rightarrow> string"
  and Canonical_Error :: "(nat \<Rightarrow> Canonical list \<Rightarrow> string) \<Rightarrow> Canonical \<Rightarrow> string"
  and GroupFormatterDefault :: "(nat \<Rightarrow> Canonical list \<Rightarrow> string) \<Rightarrow> Canonical list \<Rightarrow> string"
where
  "Error uf (ECanonical c) = Canonical_Error uf c"
| "Error uf (EGroup g) =
     (case Formatter g of
        FormatterDefault \<Rightarrow> GroupFormatterDefault uf (Errors g)
      | FormatterUser n \<Rightarrow> uf n (Errors g))"
| "Error uf (EChain e) = (if length e = 0 then [] else Canonical_Error uf (e ! 0))"
| "Error uf (EForeign s w) = s"
| "Canonical_Error uf c =
     ''['' @ Namespace c @ '':'' @ Code c @ ''] '' @ Message c @
     (case Wrapped c of None \<Rightarrow> [] | Some w \<Rightarrow> [CHR 0x0A] @ ''-> '' @ Error uf w)"
| "GroupFormatterDefault uf errors =
     (if length errors = 0 then []
      else if length errors = 1 then Canonical_Error uf (errors ! 0)
      else [CHR 0x0A] @
           Join (map (\<lambda>err. ''* '' @ Canonical_Error uf err) errors) [CHR 0x0A] @
           [CHR 0x0A, CHR 0x0A])"
  by pat_completeness auto
termination
proof (relation "measure (\<lambda>x. case x of Inl (uf, e) \<Rightarrow> size e
     | Inr (Inl (uf, c)) \<Rightarrow> size c | Inr (Inr (uf, es)) \<Rightarrow> size_list size es)")
  show "wf (measure (\<lambda>x. case x of Inl (uf :: nat \<Rightarrow> Canonical list \<Rightarrow> string, e :: error) \<Rightarrow> size e
     | Inr (Inl (uf :: nat \<Rightarrow> Canonical list \<Rightarrow> string, c :: Canonical)) \<Rightarrow> size c
     | Inr (Inr (uf :: nat \<Rightarrow> Canonical list \<Rightarrow> string, es :: Canonical list)) \<Rightarrow> size_list size es))"
    by simp
qed (auto simp: size_Wrapped size_member
      intro: less_SucI [OF size_Errors] less_SucI [OF size_nth_less])

declare Error.simps Canonical_Error.simps GroupFormatterDefault.simps [simp del]

section \<open>The unwrap chain\<close>

text \<open>
  The errors reached from \<open>err\<close> by calling \<^verbatim>\<open>Unwrap\<close> again and again, \<open>err\<close>
  first, until \<^verbatim>\<open>Unwrap\<close> returns nil.
\<close>

function unwrap_chain :: "error \<Rightarrow> error list" where
  "unwrap_chain err =
     err # (case Unwrap err of None \<Rightarrow> [] | Some err' \<Rightarrow> unwrap_chain err')"
  by pat_completeness auto
termination
  by (relation "measure size") (auto simp: Unwrap_size)

declare unwrap_chain.simps [simp del]


section \<open>Flattening, as the specification words it\<close>

text \<open>
  The Canonicals a list of members holds at any depth of nesting: a member that
  downcasts to a Group stands for the Canonicals that Group holds, any other member
  for itself.
\<close>

function flatten :: "Canonical list \<Rightarrow> Canonical list" where
  "flatten ms =
     concat (map (\<lambda>m. case errors_as to_Group (ECanonical m) of
                         Some eg \<Rightarrow> flatten (Errors eg)
                       | None \<Rightarrow> [m]) ms)"
  by pat_completeness auto
termination
proof (relation "measure (size_list size)")
  show "wf (measure (size_list (size :: Canonical \<Rightarrow> nat)))" by simp
next
  fix ms :: "Canonical list" and m eg
  assume "m \<in> set ms" "errors_as to_Group (ECanonical m) = Some eg"
  from errors_as_to_Group_size [OF this(2)] size_Errors [of eg] size_member [OF this(1)]
  show "(Errors eg, ms) \<in> measure (size_list size)" by simp
qed

declare flatten.simps [simp del]

text \<open>The members one call of \<open>Append\<close> adds, as a function of the arguments alone.\<close>

function added :: "error option list \<Rightarrow> Canonical list" where
  "added [] = []"
| "added (err # errs) =
     (if err = None then added errs
      else case errors_As err to_Group of
             Some eg \<Rightarrow> added (Slice eg) @ added errs
           | None \<Rightarrow>
               (case errors_As err to_Error of
                  Some e' \<Rightarrow> e'
                | None \<Rightarrow> Wrap ErrUnknown err) # added errs)"
  by pat_completeness auto
termination
proof (relation "measure (\<lambda>errs. sum_list (map (case_option 1 size) errs))")
  show "wf (measure (\<lambda>errs :: error option list. sum_list (map (case_option 1 size) errs)))"
    by simp
next
  fix err :: "error option" and errs
  assume "err = None"
  then show "(errs, err # errs) \<in> measure (\<lambda>errs. sum_list (map (case_option 1 size) errs))"
    by simp
next
  fix err :: "error option" and errs eg
  assume "err \<noteq> None" "errors_As err to_Group = Some eg"
  then obtain e where e: "err = Some e" "errors_as to_Group e = Some eg"
    by (auto simp: errors_As_def)
  from errors_as_to_Group_size [OF e(2)] Slice_weight [of eg] e(1)
  show "(Slice eg, err # errs) \<in> measure (\<lambda>errs. sum_list (map (case_option 1 size) errs))"
    by simp
next
  fix err :: "error option" and errs eg
  assume "err \<noteq> None"
  then obtain e where "err = Some e" by auto
  moreover have "0 < size e" by (cases e) simp_all
  ultimately show "(errs, err # errs) \<in> measure (\<lambda>errs. sum_list (map (case_option 1 size) errs))"
    by simp
next
  fix err :: "error option" and errs
  assume "err \<noteq> None"
  then obtain e where "err = Some e" by auto
  moreover have "0 < size e" by (cases e) simp_all
  ultimately show "(errs, err # errs) \<in> measure (\<lambda>errs. sum_list (map (case_option 1 size) errs))"
    by simp
qed

declare added.simps(2) [simp del]

lemma Append_added: "Append g errs = Group (Errors g @ added errs) (Formatter g)"
proof (induction errs arbitrary: g rule: added.induct)
  case 1
  show ?case by simp
next
  case (2 err errs)
  show ?case
  proof (cases err)
    case None
    with "2.IH"(1) [of g] show ?thesis by (simp add: Append.simps(2) added.simps(2))
  next
    case (Some e)
    show ?thesis
    proof (cases "errors_As err to_Group")
      case None
      from \<open>err = Some e\<close> have ne: "err \<noteq> None" by simp
      have ih: "Append g' errs = Group (Errors g' @ added errs) (Formatter g')" for g'
        by (rule "2.IH"(2) [OF ne None])
      from \<open>err = Some e\<close> None show ?thesis
        by (simp add: Append.simps(2) added.simps(2) ih split: option.splits)
    next
      case (Some eg)
      from \<open>err = Some e\<close> have ne: "err \<noteq> None" by simp
      have ih1: "Append g' (Slice eg) = Group (Errors g' @ added (Slice eg)) (Formatter g')" for g'
        by (rule "2.IH"(3) [OF ne Some])
      have ih2: "Append g' errs = Group (Errors g' @ added errs) (Formatter g')" for g'
        by (rule "2.IH"(4) [OF ne Some])
      from \<open>err = Some e\<close> Some show ?thesis
        by (simp add: Append.simps(2) added.simps(2) ih1 ih2)
    qed
  qed
qed

section \<open>The order of the search\<close>



text \<open>The first error of a list that the target accepts, as the target stores it.\<close>

definition first_match :: "(error \<Rightarrow> 'a option) \<Rightarrow> error list \<Rightarrow> 'a option" where
  "first_match target es =
     (case find (\<lambda>e. target e \<noteq> None) es of None \<Rightarrow> None | Some x \<Rightarrow> target x)"

section \<open>Flags as a bit mask\<close>

lemma Has_bit: "Has f b = (\<exists>n. bit f n \<and> bit b n)"
proof -
  have "(\<exists>n. bit f n \<and> bit b n) = (\<exists>n<8. bit f n \<and> bit b n)"
    using bit_imp_le_length [of f] by fastforce
  then show ?thesis
    unfolding Has_def by (auto simp: bit_eq_iff bit_and_iff)
qed

text \<open>
  Claim C9. For all Flags values \<open>f\<close> and bits \<open>b\<close>: \<open>Has f b\<close> is true exactly when
  \<open>f AND b\<close> is nonzero, that is when the two masks share a set bit; \<open>Set f b\<close> is
  \<open>f OR b\<close>, \<open>Clear f b\<close> is \<open>f AND NOT b\<close> and \<open>Toggle f b\<close> is \<open>f XOR b\<close>, bit by
  bit. Each operation is a function of its two arguments that returns the new mask.
  The named bits are 1, 2 and 4, and starting from the empty mask, setting Retryable
  and Timeout makes \<open>Has Retryable\<close> true, and clearing Timeout afterwards makes
  \<open>Has Timeout\<close> false.
\<close>

theorem Flags_bitmask:
  "Has f b = (f AND b \<noteq> 0) \<and> Set f b = f OR b \<and> Clear f b = f AND NOT b \<and>
   Toggle f b = f XOR b \<and>
   Has f b = (\<exists>n. bit f n \<and> bit b n) \<and>
   bit (Set f b) n = (bit f n \<or> bit b n) \<and>
   bit (Clear f b) n = (bit f n \<and> \<not> bit b n) \<and>
   bit (Toggle f b) n = (bit f n \<noteq> bit b n) \<and>
   unat FlagUnknown = 1 \<and> unat FlagRetryable = 2 \<and> unat FlagTimeout = 4 \<and>
   Has (Set 0 (FlagRetryable OR FlagTimeout)) FlagRetryable = True \<and>
   Has (Clear (Set 0 (FlagRetryable OR FlagTimeout)) FlagTimeout) FlagTimeout = False"
proof -
  have ops: "Has f b = (f AND b \<noteq> 0)" "Set f b = f OR b" "Clear f b = f AND NOT b"
    "Toggle f b = f XOR b"
    by (simp_all add: Has_def Set_def Clear_def Toggle_def)
  have bits: "bit (Set f b) n = (bit f n \<or> bit b n)"
    "bit (Clear f b) n = (bit f n \<and> \<not> bit b n)"
    "bit (Toggle f b) n = (bit f n \<noteq> bit b n)"
    by (auto simp: Set_def Clear_def Toggle_def bit_or_iff bit_and_iff bit_not_iff bit_xor_iff
        dest: bit_imp_le_length)
  have vals: "unat FlagUnknown = 1" "unat FlagRetryable = 2" "unat FlagTimeout = 4"
    by (simp_all add: FlagUnknown_def FlagRetryable_def FlagTimeout_def)
  have ex1: "Has (Set 0 (FlagRetryable OR FlagTimeout)) FlagRetryable = True"
    by (simp add: Has_def Set_def FlagRetryable_def FlagTimeout_def)
  have ex2: "Has (Clear (Set 0 (FlagRetryable OR FlagTimeout)) FlagTimeout) FlagTimeout = False"
    by (simp add: Has_def Set_def Clear_def FlagRetryable_def FlagTimeout_def)
  from ops bits vals ex1 ex2 Has_bit [of f b] show ?thesis by blast
qed

section \<open>Facts about the downcast\<close>

lemma errors_as_to_Canonical_ECanonical [simp]: "errors_as to_Canonical (ECanonical c) = Some c"
  by (simp add: errors_as_ECanonical)

lemma errors_as_to_Error_ECanonical [simp]: "errors_as to_Error (ECanonical c) = Some c"
  by (simp add: errors_as_ECanonical)

lemma IsZero_False: "IsZero c = False"
  by (simp add: IsZero_def)

lemma Wrap_Some:
  "Wrap c (Some e) = Canonical (Code c) (Extras c) (Flags c) (Message c) (Namespace c) (Some e)"
  by (simp add: Wrap_def IsZero_False)



lemma Equal_Some:
  "Equal a (Some b) =
     (Code a = Code b \<and> Message a = Message b \<and> Namespace a = Namespace b \<and>
      Flags a = Flags b \<and> Delay (Extras a) = Delay (Extras b) \<and>
      Links (Extras a) = Links (Extras b) \<and> StackTrace (Extras a) = StackTrace (Extras b) \<and>
      Tags (Extras a) = Tags (Extras b))"
  by (simp add: Equal_def errors_As_def)

lemma Equal_None: "Equal a None = False"
  by (simp add: Equal_def errors_As_def)

section \<open>Canonical: zero value, wrapping, equality and copies\<close>

text \<open>
  Claim C1 says that \<open>IsZero\<close> is true exactly of the Canonical whose fields all have
  their zero values. The code compares the receiver, a struct, with \<^verbatim>\<open>new(Canonical)\<close>,
  a pointer, and values of distinct types are never deeply equal: evaluated at the
  zero value \<^verbatim>\<open>Canonical{}\<close> itself, \<open>IsZero\<close> returns false.
\<close>

theorem IsZero_zero_value_is_false:
  "IsZero (Canonical [] \<lparr>Delay = 0, Links = None, StackTrace = [], Tags = None\<rparr> 0 [] [] None) = False"
  by (simp add: IsZero_def)

text \<open>
  Claim C2 says that a zero-value receiver wrapping an error that downcasts to a
  Canonical \<open>c2\<close> returns a copy of \<open>c2\<close>. Since \<open>IsZero\<close> is false of the zero
  value, the code takes the general branch there: with \<open>c2\<close> the Canonical whose Code
  is \<open>x\<close>, the result is the zero receiver with \<open>Wrapped = c2\<close>, and it is not
  \<open>Equal\<close> to \<open>c2\<close>. The second half of the claim holds: wrapping a foreign error
  keeps the receiver's empty fields and sets \<open>Wrapped\<close> to the error.
\<close>

theorem Wrap_zero_receiver_keeps_receiver:
  "Wrap Canonical_zero (Some (ECanonical (Canonical ''x'' Extras_zero 0 [] [] None))) =
     Canonical [] Extras_zero 0 [] [] (Some (ECanonical (Canonical ''x'' Extras_zero 0 [] [] None))) \<and>
   Equal (Wrap Canonical_zero (Some (ECanonical (Canonical ''x'' Extras_zero 0 [] [] None))))
     (Some (Canonical ''x'' Extras_zero 0 [] [] None)) = False \<and>
   Wrap Canonical_zero (Some (EForeign ''disk full'' None)) =
     Canonical [] Extras_zero 0 [] [] (Some (EForeign ''disk full'' None))"
  by (simp add: Wrap_Some Canonical_zero_def Equal_Some)

text \<open>
  Claim C5. For all Canonical values \<open>a\<close> and \<open>b\<close>, \<open>a.Equal(b)\<close> holds exactly when
  their Code, Message, Namespace and Flags are equal and their Extras are deeply
  equal (equal Delay, Links, StackTrace and Tags, a nil slice differing from an empty
  one); replacing the Wrapped errors of both by any others does not change the
  answer. \<open>Equal\<close> is false on the nil \<^verbatim>\<open>Error\<close>, the one \<^verbatim>\<open>Error\<close> that cannot be
  viewed as a Canonical, and \<open>Is\<close>, which downcasts an arbitrary error before it calls
  \<open>Equal\<close>, is false whenever the downcast fails.
\<close>

theorem Equal_ignores_Wrapped:
  "Equal a (Some b) =
     (Code a = Code b \<and> Message a = Message b \<and> Namespace a = Namespace b \<and>
      Flags a = Flags b \<and>
      reflect_DeepEqual (Any_Extras (Extras a)) (Any_Extras (Extras b))) \<and>
   reflect_DeepEqual (Any_Extras (Extras a)) (Any_Extras (Extras b)) =
     (Delay (Extras a) = Delay (Extras b) \<and> Links (Extras a) = Links (Extras b) \<and>
      StackTrace (Extras a) = StackTrace (Extras b) \<and> Tags (Extras a) = Tags (Extras b)) \<and>
   Equal (Canonical c x f m n w) (Some (Canonical c' x' f' m' n' w')) =
     Equal (Canonical c x f m n v) (Some (Canonical c' x' f' m' n' v')) \<and>
   Equal a None = False \<and>
   (errors_As target to_Canonical = None \<longrightarrow> Is a target = False)"
proof -
  have 1: "Equal a (Some b) =
     (Code a = Code b \<and> Message a = Message b \<and> Namespace a = Namespace b \<and>
      Flags a = Flags b \<and>
      reflect_DeepEqual (Any_Extras (Extras a)) (Any_Extras (Extras b)))"
    by (simp add: Equal_def errors_As_def)
  have 2: "reflect_DeepEqual (Any_Extras (Extras a)) (Any_Extras (Extras b)) =
     (Delay (Extras a) = Delay (Extras b) \<and> Links (Extras a) = Links (Extras b) \<and>
      StackTrace (Extras a) = StackTrace (Extras b) \<and> Tags (Extras a) = Tags (Extras b))"
    by simp
  have 3: "Equal (Canonical c x f m n w) (Some (Canonical c' x' f' m' n' w')) =
     Equal (Canonical c x f m n v) (Some (Canonical c' x' f' m' n' v'))"
    by (simp add: Equal_Some)
  have 4: "errors_As target to_Canonical = None \<longrightarrow> Is a target = False"
    by (simp add: Is_def)
  from 1 2 3 4 Equal_None [of a] show ?thesis by blast
qed

theorem Equal_ignores_Wrapped_witness:
  "Equal (Canonical ''not-found'' Extras_zero 2 ''missing'' ''svc'' None)
     (Some (Canonical ''not-found'' Extras_zero 2 ''missing'' ''svc'' (Some (EForeign ''disk full'' None)))) = True \<and>
   Is (Canonical ''not-found'' Extras_zero 2 ''missing'' ''svc'' None) (Some (EForeign ''disk full'' None)) = False"
proof -
  have "errors_As (Some (EForeign ''disk full'' None)) to_Canonical = None"
    by (simp add: errors_As_def errors_as_EForeign)
  with Equal_ignores_Wrapped [of "Canonical ''not-found'' Extras_zero 2 ''missing'' ''svc'' None"
      "Canonical ''not-found'' Extras_zero 2 ''missing'' ''svc'' (Some (EForeign ''disk full'' None))"
      _ _ _ _ _ _ _ _ _ _ _ _ _ _ "Some (EForeign ''disk full'' None)"]
  show ?thesis by simp
qed




section \<open>The cursor over a Group\<close>

lemma unwrap_chain_EChain:
  "e \<noteq> [] \<Longrightarrow> unwrap_chain (EChain e) = map (\<lambda>k. EChain (drop k e)) [0..<length e]"
proof (induction e)
  case Nil
  then show ?case by simp
next
  case (Cons m ms)
  show ?case
  proof (cases ms)
    case Nil
    then show ?thesis
      by (subst unwrap_chain.simps) (simp add: chain_Unwrap_def)
  next
    case (Cons m' ms')
    then have ne: "ms \<noteq> []" by simp
    have "unwrap_chain (EChain (m # ms)) = EChain (m # ms) # unwrap_chain (EChain ms)"
      using Cons by (subst unwrap_chain.simps) (simp add: chain_Unwrap_def)
    also have "\<dots> = EChain (m # ms) # map (\<lambda>k. EChain (drop k ms)) [0..<length ms]"
      using Cons.IH [OF ne] by simp
    also have "\<dots> = map (\<lambda>k. EChain (drop k (m # ms))) [0..<length (m # ms)]"
    proof -
      have "[0..<length (m # ms)] = 0 # map Suc [0..<length ms]"
        by (simp add: upt_conv_Cons map_Suc_upt del: upt_Suc)
      then show ?thesis by (simp add: comp_def del: upt_Suc)
    qed
    finally show ?thesis .
  qed
qed

lemma errors_as_to_Canonical_EChain:
  "e \<noteq> [] \<Longrightarrow> errors_as to_Canonical (EChain e) = Some (e ! 0)"
  by (simp add: errors_as_EChain)

lemma chain_views:
  "e \<noteq> [] \<Longrightarrow> map (errors_as to_Canonical) (unwrap_chain (EChain e)) = map Some e"
proof -
  assume ne: "e \<noteq> []"
  have "map (errors_as to_Canonical) (map (\<lambda>k. EChain (drop k e)) [0..<length e]) =
        map (\<lambda>k. Some (e ! k)) [0..<length e]"
    by (auto simp: errors_as_to_Canonical_EChain)
  also have "\<dots> = map Some (map (\<lambda>k. e ! k) [0..<length e])" by simp
  also have "\<dots> = map Some e" by (simp add: map_nth)
  finally show ?thesis using unwrap_chain_EChain [OF ne] by simp
qed

text \<open>
  Claim C4. \<open>Unwrap\<close> of the nil Group and of a Group without members is nil; of a
  Group with one member it is that member itself, not a chain. Of a Group with
  \<open>N \<ge> 2\<close> members it is the chain over the members, and the errors that sequential
  \<open>Unwrap\<close> calls obtain from it are the \<open>N\<close> chains over the members from the
  \<open>k\<close>-th on, \<open>k = 0, ..., N - 1\<close>. A chain stands for its member at index 0 (that is
  what its \<open>As\<close> downcasts), so the walk visits the \<open>N\<close> members, each once, in the
  order of insertion; \<open>Unwrap\<close> of the last chain, which holds one member, is nil.
\<close>

theorem Group_Unwrap_cursor:
  "Group_Unwrap None = None \<and>
   Group_Unwrap (Some (Group [] f)) = None \<and>
   Group_Unwrap (Some (Group [m] f)) = Some (ECanonical m) \<and>
   (2 \<le> length ms \<longrightarrow>
      Group_Unwrap (Some (Group ms f)) = Some (EChain ms) \<and>
      unwrap_chain (EChain ms) = map (\<lambda>k. EChain (drop k ms)) [0..<length ms] \<and>
      map (errors_as to_Canonical) (unwrap_chain (EChain ms)) = map Some ms \<and>
      length (unwrap_chain (EChain ms)) = length ms \<and>
      Unwrap (last (unwrap_chain (EChain ms))) = None) \<and>
   chain_Unwrap [m] = None"
proof -
  have a: "Group_Unwrap None = None" "Group_Unwrap (Some (Group [] f)) = None"
    "Group_Unwrap (Some (Group [m] f)) = Some (ECanonical m)" "chain_Unwrap [m] = None"
    by (simp_all add: Group_Unwrap_def chain_Unwrap_def)
  have b: "Group_Unwrap (Some (Group ms f)) = Some (EChain ms)" if "2 \<le> length ms"
    using that by (auto simp: Group_Unwrap_def)
  have c: "unwrap_chain (EChain ms) = map (\<lambda>k. EChain (drop k ms)) [0..<length ms]"
    "map (errors_as to_Canonical) (unwrap_chain (EChain ms)) = map Some ms"
    if "2 \<le> length ms"
  proof -
    from that have ne: "ms \<noteq> []" by auto
    show "unwrap_chain (EChain ms) = map (\<lambda>k. EChain (drop k ms)) [0..<length ms]"
      by (rule unwrap_chain_EChain [OF ne])
    show "map (errors_as to_Canonical) (unwrap_chain (EChain ms)) = map Some ms"
      by (rule chain_views [OF ne])
  qed
  have d: "Unwrap (last (unwrap_chain (EChain ms))) = None" if "2 \<le> length ms"
  proof -
    from that have ne: "ms \<noteq> []" by auto
    then have "last (unwrap_chain (EChain ms)) = EChain (drop (length ms - 1) ms)"
      by (simp add: unwrap_chain_EChain last_map last_upt)
    then show ?thesis by (simp add: chain_Unwrap_def)
  qed
  have e: "length (unwrap_chain (EChain ms)) = length ms" if "2 \<le> length ms"
    using c(1) [OF that] by simp
  from a b c d e show ?thesis by blast
qed

theorem Group_Unwrap_cursor_witness:
  "Group_Unwrap (Some (Group [Canonical ''a'' Extras_zero 0 [] [] None,
       Canonical ''b'' Extras_zero 0 [] [] None, Canonical ''c'' Extras_zero 0 [] [] None] FormatterDefault)) =
     Some (EChain [Canonical ''a'' Extras_zero 0 [] [] None,
       Canonical ''b'' Extras_zero 0 [] [] None, Canonical ''c'' Extras_zero 0 [] [] None]) \<and>
   map (errors_as to_Canonical) (unwrap_chain (EChain [Canonical ''a'' Extras_zero 0 [] [] None,
       Canonical ''b'' Extras_zero 0 [] [] None, Canonical ''c'' Extras_zero 0 [] [] None])) =
     map Some [Canonical ''a'' Extras_zero 0 [] [] None, Canonical ''b'' Extras_zero 0 [] [] None,
      Canonical ''c'' Extras_zero 0 [] [] None] \<and>
   length (unwrap_chain (EChain [Canonical ''a'' Extras_zero 0 [] [] None,
       Canonical ''b'' Extras_zero 0 [] [] None, Canonical ''c'' Extras_zero 0 [] [] None])) = 3"
proof -
  let ?ms = "[Canonical ''a'' Extras_zero 0 [] [] None,
       Canonical ''b'' Extras_zero 0 [] [] None, Canonical ''c'' Extras_zero 0 [] [] None]"
  have two: "2 \<le> length ?ms" by simp
  have len: "length ?ms = 3" by simp
  from Group_Unwrap_cursor [where ms = ?ms and f = FormatterDefault] two
  have "Group_Unwrap (Some (Group ?ms FormatterDefault)) = Some (EChain ?ms)"
    and "map (errors_as to_Canonical) (unwrap_chain (EChain ?ms)) = map Some ?ms"
    and "length (unwrap_chain (EChain ?ms)) = length ?ms"
    by blast+
  with len show ?thesis by presburger
qed

section \<open>The default formatter\<close>

text \<open>
  Claim C8. The default formatter returns the empty string for no members and the
  rendered text of the member for one member. For two or more members it returns a
  newline, the lines \<open>"* " + member.Error()\<close> of the members in their order, joined by
  newlines, and two newlines: for two members \<open>e1\<close> and \<open>e2\<close> that is the line of \<open>e1\<close>,
  a newline and the line of \<open>e2\<close> between the leading and the trailing newlines.
\<close>

theorem GroupFormatterDefault_output:
  "GroupFormatterDefault uf [] = [] \<and>
   GroupFormatterDefault uf [e] = Canonical_Error uf e \<and>
   (2 \<le> length es \<longrightarrow>
      GroupFormatterDefault uf es =
        [CHR 0x0A] @ Join (map (\<lambda>m. ''* '' @ Canonical_Error uf m) es) [CHR 0x0A] @
        [CHR 0x0A, CHR 0x0A]) \<and>
   GroupFormatterDefault uf [e1, e2] =
     [CHR 0x0A] @ ''* '' @ Canonical_Error uf e1 @ [CHR 0x0A] @ ''* '' @ Canonical_Error uf e2 @
     [CHR 0x0A, CHR 0x0A] \<and>
   Join (x # y # xs) [CHR 0x0A] = x @ [CHR 0x0A] @ Join (y # xs) [CHR 0x0A]"
proof -
  have a: "GroupFormatterDefault uf [] = []" "GroupFormatterDefault uf [e] = Canonical_Error uf e"
    by (simp_all add: GroupFormatterDefault.simps)
  have b: "GroupFormatterDefault uf es =
        [CHR 0x0A] @ Join (map (\<lambda>m. ''* '' @ Canonical_Error uf m) es) [CHR 0x0A] @
        [CHR 0x0A, CHR 0x0A]" if "2 \<le> length es"
    using that by (subst GroupFormatterDefault.simps) auto
  have c: "GroupFormatterDefault uf [e1, e2] =
     [CHR 0x0A] @ ''* '' @ Canonical_Error uf e1 @ [CHR 0x0A] @ ''* '' @ Canonical_Error uf e2 @
     [CHR 0x0A, CHR 0x0A]"
    by (subst GroupFormatterDefault.simps) simp
  have d: "Join (x # y # xs) [CHR 0x0A] = x @ [CHR 0x0A] @ Join (y # xs) [CHR 0x0A]"
    by simp
  from a b c d show ?thesis by blast
qed

theorem GroupFormatterDefault_output_witness:
  "GroupFormatterDefault (\<lambda>n ms. [])
     [Canonical ''not-found'' Extras_zero 0 ''missing'' ''svc'' (Some (EForeign ''disk full'' None)),
      Canonical ''c'' Extras_zero 0 ''m'' ''n'' None, Canonical ''d'' Extras_zero 0 ''k'' ''n'' None] =
   [CHR 0x0A] @ ''* [svc:not-found] missing'' @ [CHR 0x0A] @ ''-> disk full'' @ [CHR 0x0A] @
   ''* [n:c] m'' @ [CHR 0x0A] @ ''* [n:d] k'' @ [CHR 0x0A, CHR 0x0A]"
proof -
  let ?es = "[Canonical ''not-found'' Extras_zero 0 ''missing'' ''svc'' (Some (EForeign ''disk full'' None)),
      Canonical ''c'' Extras_zero 0 ''m'' ''n'' None, Canonical ''d'' Extras_zero 0 ''k'' ''n'' None]"
  have "2 \<le> length ?es" by simp
  with GroupFormatterDefault_output [where es = ?es and uf = "\<lambda>n ms. []"]
  have "GroupFormatterDefault (\<lambda>n ms. []) ?es =
        [CHR 0x0A] @ Join (map (\<lambda>m. ''* '' @ Canonical_Error (\<lambda>n ms. []) m) ?es) [CHR 0x0A] @
        [CHR 0x0A, CHR 0x0A]"
    by blast
  then show ?thesis
    by (simp add: Canonical_Error.simps Error.simps)
qed

section \<open>Facts about Append\<close>

lemma added_Slice_flatten: "added (map (\<lambda>e. Some (ECanonical e)) ms) = flatten ms"
proof (induction ms rule: flatten.induct)
  case (1 ms)
  have step: "added (map (\<lambda>e. Some (ECanonical e)) xs) =
      concat (map (\<lambda>m. case errors_as to_Group (ECanonical m) of
                         Some eg \<Rightarrow> flatten (Errors eg) | None \<Rightarrow> [m]) xs)"
    if "set xs \<subseteq> set ms" for xs
    using that
  proof (induction xs)
    case Nil
    show ?case by simp
  next
    case (Cons x xs)
    then have x: "x \<in> set ms" and xs: "set xs \<subseteq> set ms" by auto
    show ?case
    proof (cases "errors_as to_Group (ECanonical x)")
      case None
      with Cons.IH [OF xs] show ?thesis
        by (simp add: added.simps(2) errors_As_def)
    next
      case (Some eg)
      from "1.IH" [OF x Some] have "added (Slice eg) = flatten (Errors eg)"
        by (simp add: Slice_def)
      with Some Cons.IH [OF xs] show ?thesis
        by (simp add: added.simps(2) errors_As_def)
    qed
  qed
  from step [of ms] show ?case by (subst flatten.simps) simp
qed

lemma Errors_Append: "Errors (Append g errs) = Errors g @ added errs"
  by (simp add: Append_added)










lemma added_single_Group:
  "errors_as to_Group err = Some eg \<Longrightarrow> added [Some err] = flatten (Errors eg)"
  by (simp add: added.simps(2) errors_As_def Slice_def added_Slice_flatten)






section \<open>Appending to a Group\<close>




section \<open>Resolving a Group to an error or nil\<close>

lemma added_single_no_Group:
  "errors_as to_Group err = None \<Longrightarrow> added [Some err] \<noteq> []"
  by (simp add: added.simps(2) errors_As_def)

text \<open>
  Claim C6 says that \<open>NewGroup(err).ErrorOrNil()\<close> is not nil for any error \<open>err\<close> that
  is not nil. It fails when \<open>err\<close> is a Group without members, such as \<open>NewGroup()\<close>:
  \<open>Append\<close> flattens it into no members, the new Group is empty and resolves to nil.
\<close>

theorem NewGroup_of_empty_Group_is_nil:
  "ErrorOrNil (Some (NewGroup [Some (EGroup (NewGroup []))])) = None"
  by (simp add: NewGroup_def ErrorOrNil_def Append.simps(2) errors_As_def errors_as_EGroup Slice_def)

text \<open>
  Claim C6, amended. \<open>ErrorOrNil\<close> accepts the nil receiver and returns nil exactly
  when the Group is nil or has no members; otherwise it returns the Group itself.
  \<open>NewGroup().ErrorOrNil()\<close> is nil. For an error \<open>err\<close> that is not nil and does not
  downcast to a Group, \<open>NewGroup(err).ErrorOrNil()\<close> is not nil; for one that downcasts
  to a Group it is nil exactly when that Group flattens to no members.
\<close>

theorem ErrorOrNil_nil_iff_empty:
  "ErrorOrNil None = None \<and>
   (ErrorOrNil (Some g) = None) = (Errors g = []) \<and>
   (Errors g \<noteq> [] \<longrightarrow> ErrorOrNil (Some g) = Some (EGroup g)) \<and>
   ErrorOrNil (Some (NewGroup [])) = None \<and>
   (errors_as to_Group err = None \<longrightarrow> ErrorOrNil (Some (NewGroup [Some err])) \<noteq> None) \<and>
   (errors_as to_Group err = Some eg \<longrightarrow>
      (ErrorOrNil (Some (NewGroup [Some err])) = None) = (flatten (Errors eg) = []))"
proof -
  have 1: "ErrorOrNil None = None" "(ErrorOrNil (Some g) = None) = (Errors g = [])"
    "Errors g \<noteq> [] \<longrightarrow> ErrorOrNil (Some g) = Some (EGroup g)"
    "ErrorOrNil (Some (NewGroup [])) = None"
    by (simp_all add: ErrorOrNil_def NewGroup_def)
  have 2: "ErrorOrNil (Some (NewGroup [Some err])) \<noteq> None" if "errors_as to_Group err = None"
    using added_single_no_Group [OF that]
    by (simp add: ErrorOrNil_def NewGroup_def Errors_Append)
  have 3: "(ErrorOrNil (Some (NewGroup [Some err])) = None) = (flatten (Errors eg) = [])"
    if "errors_as to_Group err = Some eg"
    using added_single_Group [OF that]
    by (simp add: ErrorOrNil_def NewGroup_def Errors_Append)
  from 1 2 3 show ?thesis by blast
qed

theorem ErrorOrNil_nil_iff_empty_witness:
  "ErrorOrNil (Some (NewGroup [Some (EForeign ''disk full'' None)])) \<noteq> None \<and>
   ErrorOrNil (Some (Group [Canonical ''a'' Extras_zero 0 [] [] None] FormatterDefault)) =
     Some (EGroup (Group [Canonical ''a'' Extras_zero 0 [] [] None] FormatterDefault)) \<and>
   ErrorOrNil (Some (NewGroup [Some (ECanonical (Canonical ''w'' Extras_zero 0 [] []
      (Some (EGroup (Group [] FormatterDefault)))))])) = None"
proof -
  have a: "errors_as to_Group (EForeign ''disk full'' None) = None"
    by (simp add: errors_as_EForeign)
  have b: "Errors (Group [Canonical ''a'' Extras_zero 0 [] [] None] FormatterDefault) \<noteq> []"
    by simp
  have c: "errors_as to_Group (ECanonical (Canonical ''w'' Extras_zero 0 [] []
      (Some (EGroup (Group [] FormatterDefault))))) = Some (Group [] FormatterDefault)"
    by (simp add: errors_as_ECanonical errors_as_EGroup)
  have d: "flatten (Errors (Group [] FormatterDefault)) = []"
    by (subst flatten.simps) simp
  from ErrorOrNil_nil_iff_empty [where err = "EForeign ''disk full'' None"] a
  have 1: "ErrorOrNil (Some (NewGroup [Some (EForeign ''disk full'' None)])) \<noteq> None"
    by blast
  from ErrorOrNil_nil_iff_empty [where g = "Group [Canonical ''a'' Extras_zero 0 [] [] None] FormatterDefault"] b
  have 2: "ErrorOrNil (Some (Group [Canonical ''a'' Extras_zero 0 [] [] None] FormatterDefault)) =
     Some (EGroup (Group [Canonical ''a'' Extras_zero 0 [] [] None] FormatterDefault))"
    by blast
  from ErrorOrNil_nil_iff_empty [where err = "ECanonical (Canonical ''w'' Extras_zero 0 [] []
      (Some (EGroup (Group [] FormatterDefault))))" and eg = "Group [] FormatterDefault"] c d
  have 3: "ErrorOrNil (Some (NewGroup [Some (ECanonical (Canonical ''w'' Extras_zero 0 [] []
      (Some (EGroup (Group [] FormatterDefault)))))])) = None"
    by blast
  from 1 2 3 show ?thesis by blast
qed

section \<open>How Append classifies an argument\<close>

lemma first_match_Nil [simp]: "first_match target [] = None"
  by (simp add: first_match_def)








end
